theory Spec2Isabelle
  imports Complex_Main
begin

section \<open>The Graphiti memory adapter (src/memory/graphiti-adapter.ts)\<close>

text \<open>
  A shallow embedding of the class \<^verbatim>\<open>GraphitiMemoryAdapter\<close>. The object's private
  fields are a record, every method takes the record and returns the new one, and a
  method that can throw returns a sum whose \<open>Inl\<close> is the thrown value.

  What the adapter does to its surroundings is recorded in three trace fields of the
  record: \<open>events\<close> (every \<^verbatim>\<open>this.emit\<close>, in order), \<open>calls\<close> (every invocation of
  \<^verbatim>\<open>callGraphitiTool\<close>, in order) and \<open>probes\<close> (how often the availability check ran).

  Conventions:
  \<^item> A JavaScript \<^verbatim>\<open>Map\<close> is an association list in insertion order with distinct keys;
    \<open>Map_set\<close> overwrites in place or appends, as \<^verbatim>\<open>Map.prototype.set\<close> does.
  \<^item> An optional property or parameter is an \<open>option\<close>; \<open>None\<close> is \<^verbatim>\<open>undefined\<close>. The six
    options of the configuration that have a default are a \<open>property\<close>, which also tells
    a key that is absent from a key passed with the value \<^verbatim>\<open>undefined\<close>: the object spread
    of the constructor puts the default in place of the first only.
  \<^item> A string is a sequence of characters with codes below 256 (ISO 8859-1), and
    \<^verbatim>\<open>toLowerCase\<close> is the language's folding of these characters. Strings with other
    characters are outside the model.
  \<^item> Numbers that are counts or limits are \<open>int\<close>; the relevance score is a \<open>real\<close>.
  \<^item> \<^verbatim>\<open>new Date()\<close> and \<^verbatim>\<open>generateId()\<close> are arguments (\<open>now\<close>, \<open>newId\<close>) of the
    methods that call them.
  \<^item> The body of \<^verbatim>\<open>callGraphitiTool\<close> in the source is a placeholder for the real tool
    invocation, so the remote service is an argument \<open>invoke\<close>: given the calls made so
    far and the present call it answers or throws. The placeholder of the source is
    \<open>callGraphitiTool_stub\<close>.
  \<^item> Listeners and the optional injected logger are taken to return normally. Calls of
    the logger change neither the fields nor the traces and are left out. The \<^verbatim>\<open>catch\<close>
    of \<^verbatim>\<open>initialize\<close> is entered only when one of them throws inside its \<^verbatim>\<open>try\<close>, so no
    run of the model enters it.
  \<^item> Every method runs to completion before the next one starts: interleaving of two
    asynchronous methods at an \<^verbatim>\<open>await\<close> is outside the model.
\<close>

subsection \<open>Data\<close>

type_synonym date = nat

datatype error = Error string

datatype source = Text | Json | Message

text \<open>A property of an object that a default can stand in for: the key is absent, or it
  is present with a value, which may be \<^verbatim>\<open>undefined\<close>. Reading it gives \<^verbatim>\<open>undefined\<close> in the
  first case and the value in the second.\<close>

datatype 'a property = Absent | Present "'a option"

definition read_property :: "'a property \<Rightarrow> 'a option" where
  "read_property p = (case p of Absent \<Rightarrow> None | Present v \<Rightarrow> v)"

record GraphitiConfig =
  enabled :: bool
  apiEndpoint :: "string option"
  apiKey :: "string option"
  defaultGroupId :: "string option"
  maxNodes_property :: "int property"
  maxFacts_property :: "int property"
  enableAutoSync_property :: "bool property"
  syncInterval_property :: "int property"
  enableTemporalTracking_property :: "bool property"
  knowledgeRetentionDays_property :: "int property"

text \<open>What \<^verbatim>\<open>config.maxNodes\<close> and the like read.\<close>

definition maxNodes :: "GraphitiConfig \<Rightarrow> int option" where
  "maxNodes cfg = read_property (maxNodes_property cfg)"

definition maxFacts :: "GraphitiConfig \<Rightarrow> int option" where
  "maxFacts cfg = read_property (maxFacts_property cfg)"

definition enableAutoSync :: "GraphitiConfig \<Rightarrow> bool option" where
  "enableAutoSync cfg = read_property (enableAutoSync_property cfg)"

definition syncInterval :: "GraphitiConfig \<Rightarrow> int option" where
  "syncInterval cfg = read_property (syncInterval_property cfg)"

definition enableTemporalTracking :: "GraphitiConfig \<Rightarrow> bool option" where
  "enableTemporalTracking cfg = read_property (enableTemporalTracking_property cfg)"

definition knowledgeRetentionDays :: "GraphitiConfig \<Rightarrow> int option" where
  "knowledgeRetentionDays cfg = read_property (knowledgeRetentionDays_property cfg)"

record GraphitiNode =
  n_uuid :: string
  n_name :: string
  n_entityType :: string
  n_observations :: "string list"
  n_groupId :: string
  n_createdAt :: date
  n_updatedAt :: date
  n_summary :: "string option"

record GraphitiEdge =
  e_uuid :: string
  e_from :: string
  e_to :: string
  e_relationType :: string
  e_groupId :: string
  e_createdAt :: date
  e_invalid :: "bool option"
  e_validUntil :: "date option"

record GraphitiEpisode =
  ep_uuid :: string
  ep_name :: string
  ep_content :: string
  ep_source :: source
  ep_sourceDescription :: "string option"
  ep_groupId :: string
  ep_createdAt :: date

record GraphitiSearchResult =
  nodes :: "GraphitiNode list option"
  edges :: "GraphitiEdge list option"
  facts :: "string list option"
  relevanceScore :: real

text \<open>The options object of \<^verbatim>\<open>addMemory\<close> (its \<^verbatim>\<open>metadata\<close> is never read).\<close>

record addMemory_options =
  am_source :: "source option"
  am_sourceDescription :: "string option"
  am_groupId :: "string option"

text \<open>
  The options object of \<^verbatim>\<open>searchNodes\<close> and \<^verbatim>\<open>searchFacts\<close>. \<^verbatim>\<open>fallbackSearch\<close> takes it
  as \<^verbatim>\<open>any\<close> and reads \<^verbatim>\<open>maxNodes\<close> from it, so one record holds the properties of both.
\<close>

record search_options =
  o_groupIds :: "string list option"
  o_maxNodes :: "int option"
  o_maxFacts :: "int option"
  o_entityType :: "string option"
  o_centerNodeUuid :: "string option"

text \<open>The parts of a \<^verbatim>\<open>MemoryEntry\<close> that \<^verbatim>\<open>fromMemoryEntry\<close> uses; \<open>me_formatted\<close> is the JSON
  text \<^verbatim>\<open>formatMemoryContent\<close> produces for the entry.\<close>

record MemoryEntry =
  me_key :: string
  me_namespace :: string
  me_formatted :: string

text \<open>The tool invocations, one constructor per tool name, with its parameters.\<close>

datatype tool_call =
    add_memory string string source "string option" string string
  | search_memory_nodes string "string list option" "int option" "string option" "string option"
  | search_memory_facts string "string list option" "int option" "string option"
  | get_episodes "string option" int
  | clear_graph

record tool_result =
  r_nodes :: "GraphitiNode list option"
  r_edges :: "GraphitiEdge list option"
  r_facts :: "string list option"
  r_episodes :: "GraphitiEpisode list option"
  r_relevanceScore :: "real option"

type_synonym remote = "tool_call list \<Rightarrow> tool_call \<Rightarrow> error + tool_result"

datatype event =
    Connected
  | Fallback
  | ErrorEvent error
  | MemoryAdded GraphitiEpisode
  | FactUpdated string bool "date option"
  | HivemindShare "GraphitiNode list" "string list" date
  | GraphCleared
  | SyncCompleted date
  | Destroyed

text \<open>A timer handle, with the interval it was created with.\<close>

datatype timeout = Timeout "int option"

record adapter =
  config :: GraphitiConfig
  isConnected :: bool
  syncTimer :: "timeout option"
  episodeQueue :: "(string \<times> GraphitiEpisode list) list"
  nodeCache :: "(string \<times> GraphitiNode) list"
  edgeCache :: "(string \<times> GraphitiEdge) list"
  events :: "event list"
  calls :: "tool_call list"
  probes :: nat

record statistics =
  totalNodes :: nat
  totalEdges :: nat
  queuedEpisodes :: nat
  cacheSize :: nat
  stat_isConnected :: bool

subsection \<open>JavaScript primitives\<close>

fun Map_set :: "'k \<Rightarrow> 'v \<Rightarrow> ('k \<times> 'v) list \<Rightarrow> ('k \<times> 'v) list" where
  "Map_set k v [] = [(k, v)]"
| "Map_set k v ((k', v') # m) = (if k' = k then (k, v) # m else (k', v') # Map_set k v m)"

definition Map_get :: "('k \<times> 'v) list \<Rightarrow> 'k \<Rightarrow> 'v option" where
  "Map_get m k = map_of m k"

definition Map_values :: "('k \<times> 'v) list \<Rightarrow> 'v list" where
  "Map_values m = map snd m"

definition Map_size :: "('k \<times> 'v) list \<Rightarrow> nat" where
  "Map_size m = length m"

text \<open>\<^verbatim>\<open>a || b\<close>: the number 0 and the empty string are falsy, as \<^verbatim>\<open>undefined\<close> is.\<close>

definition or_number :: "int option \<Rightarrow> int option \<Rightarrow> int option" where
  "or_number a b = (case a of None \<Rightarrow> b | Some n \<Rightarrow> if n = 0 then b else Some n)"

definition or_number_default :: "int option \<Rightarrow> int \<Rightarrow> int" where
  "or_number_default a d = (case a of None \<Rightarrow> d | Some n \<Rightarrow> if n = 0 then d else n)"

definition or_string :: "string option \<Rightarrow> string option \<Rightarrow> string option" where
  "or_string a b = (case a of None \<Rightarrow> b | Some s \<Rightarrow> if s = [] then b else Some s)"

definition or_string_default :: "string option \<Rightarrow> string \<Rightarrow> string" where
  "or_string_default a d = (case a of None \<Rightarrow> d | Some s \<Rightarrow> if s = [] then d else s)"

definition or_score :: "real option \<Rightarrow> real \<Rightarrow> real" where
  "or_score a b = (case a of None \<Rightarrow> b | Some x \<Rightarrow> if x = 0 then b else x)"

text \<open>\<^verbatim>\<open>xs.slice(0, end)\<close> and \<^verbatim>\<open>xs.slice(start)\<close>: a negative index counts from the end.\<close>

definition slice_to :: "int \<Rightarrow> 'a list \<Rightarrow> 'a list" where
  "slice_to end xs =
     (if end < 0 then take (nat (int (length xs) + end)) xs else take (nat end) xs)"

definition slice_from :: "int \<Rightarrow> 'a list \<Rightarrow> 'a list" where
  "slice_from start xs =
     (if start < 0 then drop (nat (int (length xs) + start)) xs else drop (nat start) xs)"

text \<open>\<^verbatim>\<open>toLowerCase\<close>, character by character. The characters with codes below 256 that it
  changes are A to Z (65 to 90) and the capitals from 192 to 222 but for the
  multiplication sign 215; each goes to the character 32 further on.\<close>

definition char_toLowerCase :: "char \<Rightarrow> char" where
  "char_toLowerCase c =
     (let n = (of_char c :: nat)
      in if (65 \<le> n \<and> n \<le> 90) \<or> (192 \<le> n \<and> n \<le> 222 \<and> n \<noteq> 215)
         then char_of (n + 32) else c)"

definition toLowerCase :: "string \<Rightarrow> string" where
  "toLowerCase s = map char_toLowerCase s"

text \<open>\<^verbatim>\<open>s.includes(q)\<close>: \<open>q\<close> starts at some position of \<open>s\<close>.\<close>

fun string_includes :: "string \<Rightarrow> string \<Rightarrow> bool" where
  "string_includes [] q = (q = [])"
| "string_includes (c # cs) q = (take (length q) (c # cs) = q \<or> string_includes cs q)"

subsection \<open>Emitting and calling out\<close>

definition emit :: "event \<Rightarrow> adapter \<Rightarrow> adapter" where
  "emit ev s = s\<lparr>events := events s @ [ev]\<rparr>"

definition callGraphitiTool :: "remote \<Rightarrow> tool_call \<Rightarrow> adapter \<Rightarrow> (error + tool_result) \<times> adapter" where
  "callGraphitiTool invoke c s = (invoke (calls s) c, s\<lparr>calls := calls s @ [c]\<rparr>)"

text \<open>The placeholder body of \<^verbatim>\<open>callGraphitiTool\<close> in the source: it answers every call
  with the same mock data.\<close>

definition callGraphitiTool_stub :: remote where
  "callGraphitiTool_stub cs c =
     Inr \<lparr>r_nodes = Some [], r_edges = Some [], r_facts = Some [], r_episodes = Some [],
          r_relevanceScore = Some 0.75\<rparr>"

subsection \<open>clearGraph\<close>

definition clearGraph :: "remote \<Rightarrow> adapter \<Rightarrow> (error + unit) \<times> adapter" where
  "clearGraph invoke s =
     (let clear_local = (\<lambda>s'.
            (Inr (), emit GraphCleared (s'\<lparr>nodeCache := [], edgeCache := [], episodeQueue := []\<rparr>)))
      in if isConnected s then
           (case callGraphitiTool invoke clear_graph s of
              (Inl e, s') \<Rightarrow> (Inl e, s')
            | (Inr _, s') \<Rightarrow> clear_local s')
         else clear_local s)"

subsection \<open>addMemory and flushEpisode\<close>

text \<open>The invocation \<^verbatim>\<open>flushEpisode\<close> makes for an episode: the tool name and the parameter
  object built from the episode.\<close>

definition add_memory_call :: "GraphitiEpisode \<Rightarrow> tool_call" where
  "add_memory_call episode =
     add_memory (ep_name episode) (ep_content episode) (ep_source episode)
       (ep_sourceDescription episode) (ep_groupId episode) (ep_uuid episode)"

definition flushEpisode :: "remote \<Rightarrow> GraphitiEpisode \<Rightarrow> adapter \<Rightarrow> (error + unit) \<times> adapter" where
  "flushEpisode invoke episode s =
     (case callGraphitiTool invoke (add_memory_call episode) s of
        (Inl e, s') \<Rightarrow> (Inl e, s')
      | (Inr _, s') \<Rightarrow> (Inr (), s'))"

definition new_episode ::
  "GraphitiConfig \<Rightarrow> string \<Rightarrow> date \<Rightarrow> string \<Rightarrow> string \<Rightarrow> addMemory_options option \<Rightarrow> GraphitiEpisode" where
  "new_episode cfg newId now name content options =
     \<lparr>ep_uuid = newId,
      ep_name = name,
      ep_content = content,
      ep_source = (case Option.bind options am_source of None \<Rightarrow> Text | Some src \<Rightarrow> src),
      ep_sourceDescription = Option.bind options am_sourceDescription,
      ep_groupId =
        or_string_default (or_string (Option.bind options am_groupId) (defaultGroupId cfg)) ''default'',
      ep_createdAt = now\<rparr>"

definition addMemory ::
  "remote \<Rightarrow> string \<Rightarrow> date \<Rightarrow> string \<Rightarrow> string \<Rightarrow> addMemory_options option \<Rightarrow> adapter
     \<Rightarrow> (error + string) \<times> adapter" where
  "addMemory invoke newId now name content options s =
     (let episode = new_episode (config s) newId now name content options;
          groupQueue = (case Map_get (episodeQueue s) (ep_groupId episode) of
                          None \<Rightarrow> [] | Some q \<Rightarrow> q);
          s1 = s\<lparr>episodeQueue :=
                   Map_set (ep_groupId episode) (groupQueue @ [episode]) (episodeQueue s)\<rparr>
      in if isConnected s1 then
           (case flushEpisode invoke episode s1 of
              (Inl e, s2) \<Rightarrow> (Inl e, s2)
            | (Inr _, s2) \<Rightarrow> (Inr (ep_uuid episode), emit (MemoryAdded episode) s2))
         else (Inr (ep_uuid episode), emit (MemoryAdded episode) s1))"

definition fromMemoryEntry ::
  "remote \<Rightarrow> string \<Rightarrow> date \<Rightarrow> MemoryEntry \<Rightarrow> adapter \<Rightarrow> (error + string) \<times> adapter" where
  "fromMemoryEntry invoke newId now entry s =
     addMemory invoke newId now (me_key entry) (me_formatted entry)
       (Some \<lparr>am_source = Some Json,
              am_sourceDescription = Some (''Memory entry from '' @ me_namespace entry),
              am_groupId = Some (me_namespace entry)\<rparr>) s"

subsection \<open>Searching\<close>

definition node_matches :: "string \<Rightarrow> GraphitiNode \<Rightarrow> bool" where
  "node_matches query node =
     (string_includes (toLowerCase (n_name node)) (toLowerCase query) \<or>
      list_ex (\<lambda>obs. string_includes (toLowerCase obs) (toLowerCase query)) (n_observations node))"

definition fallbackSearch :: "string \<Rightarrow> search_options option \<Rightarrow> adapter \<Rightarrow> GraphitiSearchResult" where
  "fallbackSearch query options s =
     (let results = filter (node_matches query) (Map_values (nodeCache s))
      in \<lparr>nodes = Some (slice_to (or_number_default (Option.bind options o_maxNodes) 10) results),
          edges = None,
          facts = None,
          relevanceScore = (if length results > 0 then 0.5 else 0)\<rparr>)"

definition searchNodes ::
  "remote \<Rightarrow> string \<Rightarrow> search_options option \<Rightarrow> adapter \<Rightarrow> (error + GraphitiSearchResult) \<times> adapter" where
  "searchNodes invoke query options s =
     (if \<not> isConnected s then (Inr (fallbackSearch query options s), s)
      else
        (case callGraphitiTool invoke
                (search_memory_nodes query (Option.bind options o_groupIds)
                   (or_number (Option.bind options o_maxNodes) (maxNodes (config s)))
                   (Option.bind options o_entityType) (Option.bind options o_centerNodeUuid)) s of
           (Inr results, s') \<Rightarrow>
             (Inr \<lparr>nodes = r_nodes results, edges = None, facts = None,
                   relevanceScore = or_score (r_relevanceScore results) 0.5\<rparr>, s')
         | (Inl e, s') \<Rightarrow>
             (Inr \<lparr>nodes = Some [], edges = None, facts = None, relevanceScore = 0\<rparr>, s')))"

definition searchFacts ::
  "remote \<Rightarrow> string \<Rightarrow> search_options option \<Rightarrow> adapter \<Rightarrow> (error + GraphitiSearchResult) \<times> adapter" where
  "searchFacts invoke query options s =
     (if \<not> isConnected s then (Inr (fallbackSearch query options s), s)
      else
        (case callGraphitiTool invoke
                (search_memory_facts query (Option.bind options o_groupIds)
                   (or_number (Option.bind options o_maxFacts) (maxFacts (config s)))
                   (Option.bind options o_centerNodeUuid)) s of
           (Inr results, s') \<Rightarrow>
             (Inr \<lparr>nodes = None, edges = None, facts = r_facts results,
                   relevanceScore = or_score (r_relevanceScore results) 0.5\<rparr>, s')
         | (Inl e, s') \<Rightarrow>
             (Inr \<lparr>nodes = None, edges = None, facts = Some [], relevanceScore = 0\<rparr>, s')))"

definition getRecentEpisodes ::
  "remote \<Rightarrow> string option \<Rightarrow> int option \<Rightarrow> adapter \<Rightarrow> (error + GraphitiEpisode list) \<times> adapter" where
  "getRecentEpisodes invoke groupId limit_arg s =
     (let limit = (case limit_arg of None \<Rightarrow> 10 | Some l \<Rightarrow> l)
      in if \<not> isConnected s then
           (Inr (slice_from (- limit)
                   (case Map_get (episodeQueue s) (or_string_default groupId ''default'') of
                      None \<Rightarrow> [] | Some q \<Rightarrow> q)), s)
         else
           (case callGraphitiTool invoke
                   (get_episodes (or_string groupId (defaultGroupId (config s))) limit) s of
              (Inr results, s') \<Rightarrow>
                (Inr (case r_episodes results of None \<Rightarrow> [] | Some es \<Rightarrow> es), s')
            | (Inl e, s') \<Rightarrow> (Inr [], s')))"

subsection \<open>updateFactValidity, shareWithHiveMind, getStatistics\<close>

definition updateFactValidity :: "string \<Rightarrow> bool \<Rightarrow> date option \<Rightarrow> adapter \<Rightarrow> adapter" where
  "updateFactValidity edgeUuid isValid validUntil s =
     (if enableTemporalTracking (config s) \<noteq> Some True then s
      else
        (case Map_get (edgeCache s) edgeUuid of
           None \<Rightarrow> s
         | Some edge \<Rightarrow>
             emit (FactUpdated edgeUuid isValid validUntil)
               (s\<lparr>edgeCache :=
                    Map_set edgeUuid (edge\<lparr>e_invalid := Some (\<not> isValid), e_validUntil := validUntil\<rparr>)
                      (edgeCache s)\<rparr>)))"

definition shareWithHiveMind :: "string list \<Rightarrow> string list \<Rightarrow> date \<Rightarrow> adapter \<Rightarrow> adapter" where
  "shareWithHiveMind nodeUuids targetSwarms now s =
     (let found = List.map_filter (Map_get (nodeCache s)) nodeUuids
      in if length found > 0 then emit (HivemindShare found targetSwarms now) s else s)"

definition getStatistics :: "adapter \<Rightarrow> statistics" where
  "getStatistics s =
     \<lparr>totalNodes = Map_size (nodeCache s),
      totalEdges = Map_size (edgeCache s),
      queuedEpisodes = fold (\<lambda>queue sum. sum + length queue) (Map_values (episodeQueue s)) 0,
      cacheSize = Map_size (nodeCache s) + Map_size (edgeCache s),
      stat_isConnected = isConnected s\<rparr>"

subsection \<open>Synchronisation and teardown\<close>

text \<open>
  The inner loop of \<^verbatim>\<open>syncWithGraphiti\<close>: every episode of one queue is flushed, in
  order; what a flush throws is caught and the loop goes on.
\<close>

fun sync_episodes :: "remote \<Rightarrow> GraphitiEpisode list \<Rightarrow> adapter \<Rightarrow> adapter" where
  "sync_episodes invoke [] s = s"
| "sync_episodes invoke (episode # rest) s =
     (case flushEpisode invoke episode s of
        (Inl e, s') \<Rightarrow> sync_episodes invoke rest s'
      | (Inr _, s') \<Rightarrow> sync_episodes invoke rest s')"

text \<open>
  The outer loop, over the entries of the queue map. The only change the loop makes to
  the map is to store an empty array under the key it is visiting, which neither adds
  nor reorders entries, so it visits the entries the map had when the loop began.
\<close>

fun sync_groups :: "remote \<Rightarrow> (string \<times> GraphitiEpisode list) list \<Rightarrow> adapter \<Rightarrow> adapter" where
  "sync_groups invoke [] s = s"
| "sync_groups invoke ((groupId, episodes) # rest) s =
     (let s' = sync_episodes invoke episodes s
      in sync_groups invoke rest (s'\<lparr>episodeQueue := Map_set groupId [] (episodeQueue s')\<rparr>))"

definition syncWithGraphiti :: "remote \<Rightarrow> date \<Rightarrow> adapter \<Rightarrow> adapter" where
  "syncWithGraphiti invoke now s = emit (SyncCompleted now) (sync_groups invoke (episodeQueue s) s)"

definition destroy :: "remote \<Rightarrow> date \<Rightarrow> adapter \<Rightarrow> adapter" where
  "destroy invoke now s =
     (let s1 = (if syncTimer s \<noteq> None then s\<lparr>syncTimer := None\<rparr> else s);
          s2 = syncWithGraphiti invoke now s1
      in emit Destroyed
           (s2\<lparr>nodeCache := [], edgeCache := [], episodeQueue := [], isConnected := False\<rparr>))"

subsection \<open>Construction and initialisation\<close>

text \<open>What evaluating \<^verbatim>\<open>typeof global.mcp__graphiti__add_memory === 'function'\<close> does.\<close>

datatype global_lookup = IsFunction | NotFunction | LookupThrows error

definition checkGraphitiAvailability :: "global_lookup \<Rightarrow> adapter \<Rightarrow> (error + bool) \<times> adapter" where
  "checkGraphitiAvailability g s =
     (case g of
        IsFunction \<Rightarrow> Inr True
      | NotFunction \<Rightarrow> Inr False
      | LookupThrows e \<Rightarrow> Inr False,
      s\<lparr>probes := probes s + 1\<rparr>)"

definition startAutoSync :: "adapter \<Rightarrow> adapter" where
  "startAutoSync s = s\<lparr>syncTimer := Some (Timeout (syncInterval (config s)))\<rparr>"

text \<open>The \<^verbatim>\<open>try\<close> and \<^verbatim>\<open>catch\<close> of \<^verbatim>\<open>initialize\<close>, given what the awaited probe did. The
  probe catches what its lookup throws, so it never hands over an \<open>Inl\<close>: the \<^verbatim>\<open>catch\<close>
  (the \<open>Inl\<close> case) stands here as the source has it and is entered by no run.\<close>

definition initialize_after :: "error + bool \<Rightarrow> adapter \<Rightarrow> adapter" where
  "initialize_after probe s =
     (case probe of
        Inr isAvailable \<Rightarrow>
          (if isAvailable then
             (let s1 = emit Connected (s\<lparr>isConnected := True\<rparr>)
              in if enableAutoSync (config s1) = Some True then startAutoSync s1 else s1)
           else emit Fallback s)
      | Inl e \<Rightarrow> emit (ErrorEvent e) s)"

definition initialize :: "global_lookup \<Rightarrow> adapter \<Rightarrow> adapter" where
  "initialize g s = (case checkGraphitiAvailability g s of (probe, s') \<Rightarrow> initialize_after probe s')"

text \<open>The object spread \<^verbatim>\<open>{ ...defaults, ...config }\<close> on one property: a key the caller's
  object has wins, also when its value is \<^verbatim>\<open>undefined\<close>; the default stands for an absent
  key only.\<close>

definition spread_over :: "'a \<Rightarrow> 'a property \<Rightarrow> 'a property" where
  "spread_over d p = (case p of Absent \<Rightarrow> Present (Some d) | Present v \<Rightarrow> Present v)"

definition merge_config :: "GraphitiConfig \<Rightarrow> GraphitiConfig" where
  "merge_config cfg =
     cfg\<lparr>maxNodes_property := spread_over 10000 (maxNodes_property cfg),
         maxFacts_property := spread_over 50000 (maxFacts_property cfg),
         enableAutoSync_property := spread_over True (enableAutoSync_property cfg),
         syncInterval_property := spread_over 30000 (syncInterval_property cfg),
         enableTemporalTracking_property := spread_over True (enableTemporalTracking_property cfg),
         knowledgeRetentionDays_property := spread_over 90 (knowledgeRetentionDays_property cfg)\<rparr>"

definition constructor :: "GraphitiConfig \<Rightarrow> global_lookup \<Rightarrow> adapter" where
  "constructor cfg g =
     (let s = \<lparr>config = merge_config cfg, isConnected = False, syncTimer = None,
               episodeQueue = [], nodeCache = [], edgeCache = [],
               events = [], calls = [], probes = 0\<rparr>
      in if enabled (config s) then initialize g s else s)"

subsection \<open>The adapter's life: a sequence of calls and timer ticks\<close>

datatype operation =
    AddMemory string date string string "addMemory_options option"
  | SearchNodes string "search_options option"
  | SearchFacts string "search_options option"
  | FromMemoryEntry string date MemoryEntry
  | GetRecentEpisodes "string option" "int option"
  | ClearGraph
  | UpdateFactValidity string bool "date option"
  | ShareWithHiveMind "string list" "string list" date
  | GetStatistics
  | Destroy date
  | TimerTick date

fun perform :: "remote \<Rightarrow> operation \<Rightarrow> adapter \<Rightarrow> adapter" where
  "perform invoke (AddMemory newId now name content options) s =
     snd (addMemory invoke newId now name content options s)"
| "perform invoke (SearchNodes query options) s = snd (searchNodes invoke query options s)"
| "perform invoke (SearchFacts query options) s = snd (searchFacts invoke query options s)"
| "perform invoke (FromMemoryEntry newId now entry) s = snd (fromMemoryEntry invoke newId now entry s)"
| "perform invoke (GetRecentEpisodes groupId limit) s = snd (getRecentEpisodes invoke groupId limit s)"
| "perform invoke ClearGraph s = snd (clearGraph invoke s)"
| "perform invoke (UpdateFactValidity edgeUuid isValid validUntil) s =
     updateFactValidity edgeUuid isValid validUntil s"
| "perform invoke (ShareWithHiveMind nodeUuids targetSwarms now) s =
     shareWithHiveMind nodeUuids targetSwarms now s"
| "perform invoke GetStatistics s = s"
| "perform invoke (Destroy now) s = destroy invoke now s"
| "perform invoke (TimerTick now) s =
     (if syncTimer s \<noteq> None then syncWithGraphiti invoke now s else s)"

fun perform_all :: "remote \<Rightarrow> operation list \<Rightarrow> adapter \<Rightarrow> adapter" where
  "perform_all invoke [] s = s"
| "perform_all invoke (op # ops) s = perform_all invoke ops (perform invoke op s)"

subsection \<open>Sample values\<close>

text \<open>A remote service that throws on every call.\<close>

definition unreachable :: remote where
  "unreachable cs c = Inl (Error ''unreachable'')"

text \<open>A remote service that throws on every second call, beginning with the first.\<close>

definition flaky :: remote where
  "flaky cs c = (if even (length cs) then Inl (Error ''busy'') else callGraphitiTool_stub cs c)"

definition sample_config :: GraphitiConfig where
  "sample_config =
     \<lparr>enabled = True, apiEndpoint = None, apiKey = None, defaultGroupId = None,
      maxNodes_property = Absent, maxFacts_property = Absent, enableAutoSync_property = Absent,
      syncInterval_property = Absent, enableTemporalTracking_property = Absent,
      knowledgeRetentionDays_property = Absent\<rparr>"

definition sample_node :: "string \<Rightarrow> string \<Rightarrow> string list \<Rightarrow> GraphitiNode" where
  "sample_node u nm obs =
     \<lparr>n_uuid = u, n_name = nm, n_entityType = ''Topic'', n_observations = obs,
      n_groupId = ''default'', n_createdAt = 1, n_updatedAt = 1, n_summary = None\<rparr>"

definition sample_edge :: GraphitiEdge where
  "sample_edge =
     \<lparr>e_uuid = ''e1'', e_from = ''n1'', e_to = ''n2'', e_relationType = ''uses'',
      e_groupId = ''default'', e_createdAt = 1, e_invalid = None, e_validUntil = None\<rparr>"

definition sample_episode :: "string \<Rightarrow> string \<Rightarrow> GraphitiEpisode" where
  "sample_episode u g =
     \<lparr>ep_uuid = u, ep_name = ''note'', ep_content = ''body'', ep_source = Text,
      ep_sourceDescription = None, ep_groupId = g, ep_createdAt = 1\<rparr>"

text \<open>A connected adapter with two cached nodes, one cached edge and three queued
  episodes in two groups.\<close>

definition sample_adapter :: adapter where
  "sample_adapter =
     \<lparr>config = merge_config sample_config, isConnected = True, syncTimer = None,
      episodeQueue = [(''a'', [sample_episode ''u1'' ''a'', sample_episode ''u2'' ''a'']),
                      (''b'', [sample_episode ''u3'' ''b''])],
      nodeCache = [(''n1'', sample_node ''n1'' ''Graph Store'' []),
                   (''n2'', sample_node ''n2'' ''Cache'' [''backs the GRAPH reads''])],
      edgeCache = [(''e1'', sample_edge)],
      events = [], calls = [], probes = 1\<rparr>"


subsection \<open>What the specification calls a match\<close>

text \<open>
  Following the words of the specification, not the code: a string contains the query
  as a case-insensitive substring when the query, letter for letter and up to the case
  of each letter, stands at some position of the string; a node matches when its name
  or at least one of its observations does.
\<close>

text \<open>The capital letters among the characters with codes below 256 (A to Z, and the
  accented capitals 192 to 214 and 216 to 222), and the small letter that belongs to a
  capital. Two characters are the same letter when they are equal or one is the small
  letter of the other.\<close>

definition capital_letter :: "char \<Rightarrow> bool" where
  "capital_letter c =
     (let n = (of_char c :: nat)
      in (65 \<le> n \<and> n \<le> 90) \<or> (192 \<le> n \<and> n \<le> 214) \<or> (216 \<le> n \<and> n \<le> 222))"

definition small_of_capital :: "char \<Rightarrow> char \<Rightarrow> bool" where
  "small_of_capital a b = (capital_letter b \<and> (of_char a :: nat) = of_char b + 32)"

definition same_letter :: "char \<Rightarrow> char \<Rightarrow> bool" where
  "same_letter a b = (a = b \<or> small_of_capital a b \<or> small_of_capital b a)"

definition contains_ignoring_case :: "string \<Rightarrow> string \<Rightarrow> bool" where
  "contains_ignoring_case str query =
     list_ex (\<lambda>i. list_all2 same_letter (take (length query) (drop i str)) query)
       [0..<Suc (length str)]"

definition spec_matches :: "string \<Rightarrow> GraphitiNode \<Rightarrow> bool" where
  "spec_matches query node =
     (contains_ignoring_case (n_name node) query \<or>
      list_ex (\<lambda>obs. contains_ignoring_case obs query) (n_observations node))"

text \<open>The three events that only \<^verbatim>\<open>initialize\<close> emits.\<close>

fun startup_event :: "event \<Rightarrow> bool" where
  "startup_event Connected = True"
| "startup_event Fallback = True"
| "startup_event (ErrorEvent e) = True"
| "startup_event ev = False"

section \<open>Properties\<close>

subsection \<open>Helper facts\<close>

lemma Map_get_Map_set:
  "Map_get (Map_set k v m) k' = (if k' = k then Some v else Map_get m k')"
  by (induction m) (auto simp: Map_get_def)

text \<open>The spread in the constructor: the default stands for an absent key, and a key
  that the caller passes keeps its value, also the value \<^verbatim>\<open>undefined\<close>.\<close>

lemma merge_config_spread:
  "enableTemporalTracking (merge_config (cfg\<lparr>enableTemporalTracking_property := Absent\<rparr>)) = Some True"
  "enableTemporalTracking (merge_config (cfg\<lparr>enableTemporalTracking_property := Present v\<rparr>)) = v"
  "maxNodes (merge_config (cfg\<lparr>maxNodes_property := Absent\<rparr>)) = Some 10000"
  "maxNodes (merge_config (cfg\<lparr>maxNodes_property := Present n\<rparr>)) = n"
  by (simp_all add: merge_config_def spread_over_def enableTemporalTracking_def maxNodes_def
        read_property_def)

lemma keys_Map_set_present:
  "Map_get m k = Some v' \<Longrightarrow> map fst (Map_set k v m) = map fst m"
  by (induction m) (auto simp: Map_get_def split: if_splits)

subsection \<open>clearGraph\<close>

text \<open>
  C1 (as the code has it). When the adapter is not connected, or the remote \<^verbatim>\<open>clear_graph\<close>
  invocation answers, \<^verbatim>\<open>clearGraph\<close> returns normally, the node cache, the edge cache and
  the episode queue are empty afterwards and \<open>graph:cleared\<close> is emitted. When the adapter
  is connected and the remote invocation throws, the error is rethrown, the two caches
  and the queue are what they were, and no event is emitted.
\<close>

theorem clearGraph_clears_unless_remote_throws:
  "((\<not> isConnected s \<or> (\<exists>r. invoke (calls s) clear_graph = Inr r)) \<longrightarrow>
      fst (clearGraph invoke s) = Inr () \<and>
      nodeCache (snd (clearGraph invoke s)) = [] \<and>
      edgeCache (snd (clearGraph invoke s)) = [] \<and>
      episodeQueue (snd (clearGraph invoke s)) = [] \<and>
      events (snd (clearGraph invoke s)) = events s @ [GraphCleared]) \<and>
   ((isConnected s \<and> invoke (calls s) clear_graph = Inl e) \<longrightarrow>
      fst (clearGraph invoke s) = Inl e \<and>
      nodeCache (snd (clearGraph invoke s)) = nodeCache s \<and>
      edgeCache (snd (clearGraph invoke s)) = edgeCache s \<and>
      episodeQueue (snd (clearGraph invoke s)) = episodeQueue s \<and>
      events (snd (clearGraph invoke s)) = events s)"
  by (auto simp: clearGraph_def callGraphitiTool_def emit_def Let_def split: sum.splits)

theorem clearGraph_clears_unless_remote_throws_witness:
  "fst (clearGraph callGraphitiTool_stub sample_adapter) = Inr () \<and>
   nodeCache (snd (clearGraph callGraphitiTool_stub sample_adapter)) = [] \<and>
   edgeCache (snd (clearGraph callGraphitiTool_stub sample_adapter)) = [] \<and>
   episodeQueue (snd (clearGraph callGraphitiTool_stub sample_adapter)) = [] \<and>
   events (snd (clearGraph callGraphitiTool_stub sample_adapter)) = [GraphCleared] \<and>
   fst (clearGraph unreachable sample_adapter) = Inl (Error ''unreachable'') \<and>
   length (nodeCache (snd (clearGraph unreachable sample_adapter))) = 2 \<and>
   events (snd (clearGraph unreachable sample_adapter)) = []"
proof -
  have ok: "\<exists>r. callGraphitiTool_stub (calls sample_adapter) clear_graph = Inr r"
    by (simp add: callGraphitiTool_stub_def)
  have bad: "isConnected sample_adapter \<and>
             unreachable (calls sample_adapter) clear_graph = Inl (Error ''unreachable'')"
    by (simp add: unreachable_def sample_adapter_def)
  from ok bad
    clearGraph_clears_unless_remote_throws [of sample_adapter callGraphitiTool_stub]
    clearGraph_clears_unless_remote_throws [of sample_adapter unreachable "Error ''unreachable''"]
  show ?thesis by (simp add: sample_adapter_def)
qed

text \<open>
  C1 as stated fails: on a connected adapter whose remote service throws, \<^verbatim>\<open>clearGraph\<close>
  rethrows and leaves both caches and the queue filled, and emits no \<open>graph:cleared\<close>.
\<close>

theorem clearGraph_remote_failure_counterexample:
  "fst (clearGraph unreachable sample_adapter) = Inl (Error ''unreachable'') \<and>
   nodeCache (snd (clearGraph unreachable sample_adapter)) \<noteq> [] \<and>
   edgeCache (snd (clearGraph unreachable sample_adapter)) \<noteq> [] \<and>
   episodeQueue (snd (clearGraph unreachable sample_adapter)) \<noteq> [] \<and>
   GraphCleared \<notin> set (events (snd (clearGraph unreachable sample_adapter)))"
  by (simp add: clearGraph_def callGraphitiTool_def unreachable_def sample_adapter_def Let_def)

subsection \<open>addMemory\<close>

text \<open>
  C2 (as the code has it). When \<^verbatim>\<open>addMemory\<close> is called on a connected adapter and the
  immediate delivery throws, the error reaches the caller, the new episode is the last
  one of its group's queue, and nothing is emitted. Whenever \<^verbatim>\<open>addMemory\<close> returns
  normally it returns the new identifier and has emitted \<open>memory:added\<close> with the full
  episode.
\<close>

theorem addMemory_delivery_failure:
  assumes "episode = new_episode (config s) newId now name content options"
    and "result = addMemory invoke newId now name content options s"
  shows
    "(isConnected s \<and>
      invoke (calls s) (add_memory_call episode) = Inl e \<longrightarrow>
        fst result = Inl e \<and>
        Map_get (episodeQueue (snd result)) (ep_groupId episode)
          = Some ((case Map_get (episodeQueue s) (ep_groupId episode) of None \<Rightarrow> [] | Some q \<Rightarrow> q)
                  @ [episode]) \<and>
        events (snd result) = events s) \<and>
     (fst result = Inr u \<longrightarrow>
        u = newId \<and> events (snd result) = events s @ [MemoryAdded episode])"
  using assms
  by (auto simp: addMemory_def flushEpisode_def callGraphitiTool_def emit_def Let_def
        Map_get_Map_set new_episode_def add_memory_call_def split: sum.splits)

theorem addMemory_delivery_failure_witness:
  "fst (addMemory unreachable ''u9'' 7 ''n'' ''c'' None sample_adapter) = Inl (Error ''unreachable'') \<and>
   Map_get (episodeQueue (snd (addMemory unreachable ''u9'' 7 ''n'' ''c'' None sample_adapter))) ''default''
     = Some [new_episode (config sample_adapter) ''u9'' 7 ''n'' ''c'' None] \<and>
   events (snd (addMemory unreachable ''u9'' 7 ''n'' ''c'' None sample_adapter)) = [] \<and>
   events (snd (addMemory callGraphitiTool_stub ''u9'' 7 ''n'' ''c'' None sample_adapter))
     = [MemoryAdded (new_episode (config sample_adapter) ''u9'' 7 ''n'' ''c'' None)]"
proof -
  have conn: "isConnected sample_adapter"
    by (simp add: sample_adapter_def)
  have ok: "fst (addMemory callGraphitiTool_stub ''u9'' 7 ''n'' ''c'' None sample_adapter) = Inr ''u9''"
    by (simp add: addMemory_def flushEpisode_def callGraphitiTool_def callGraphitiTool_stub_def
          Let_def new_episode_def conn)
  have grp: "ep_groupId (new_episode (config sample_adapter) ''u9'' 7 ''n'' ''c'' None) = ''default''"
    by (simp add: new_episode_def sample_adapter_def merge_config_def sample_config_def
          or_string_def or_string_default_def)
  have old: "Map_get (episodeQueue sample_adapter) ''default'' = None"
    by (simp add: sample_adapter_def Map_get_def)
  from conn ok
    addMemory_delivery_failure [OF refl refl, of sample_adapter unreachable "''u9''" 7 "''n''" "''c''"
      None "Error ''unreachable''" "''u9''"]
    addMemory_delivery_failure [OF refl refl, of sample_adapter callGraphitiTool_stub "''u9''" 7
      "''n''" "''c''" None "Error ''unreachable''" "''u9''"]
  show ?thesis
    by (simp add: unreachable_def grp old) (simp add: sample_adapter_def)
qed

text \<open>
  C2 as stated fails in its last part: after a delivery that throws, no \<open>memory:added\<close>
  notification has been emitted.
\<close>

theorem addMemory_delivery_failure_counterexample:
  "isConnected sample_adapter \<and>
   fst (addMemory unreachable ''u9'' 7 ''n'' ''c'' None sample_adapter) = Inl (Error ''unreachable'') \<and>
   MemoryAdded (new_episode (config sample_adapter) ''u9'' 7 ''n'' ''c'' None)
     \<notin> set (events (snd (addMemory unreachable ''u9'' 7 ''n'' ''c'' None sample_adapter))) \<and>
   events (snd (addMemory unreachable ''u9'' 7 ''n'' ''c'' None sample_adapter)) = []"
  by (simp add: addMemory_def flushEpisode_def callGraphitiTool_def unreachable_def Let_def
        sample_adapter_def)

subsection \<open>initialize\<close>

text \<open>
  C3 (as the code has it). When the lookup inside the availability probe throws, the
  probe itself catches that and returns false, so initialisation goes as it does for a
  probe that returns false: \<open>isConnected\<close> stays as it was, \<open>fallback\<close> is the one event
  emitted, and no \<open>error\<close> event is emitted. An enabled adapter constructed on such a
  probe is not connected and has emitted exactly \<open>fallback\<close>.
\<close>

theorem initialize_probe_failure:
  "fst (checkGraphitiAvailability (LookupThrows e) s) = Inr False \<and>
   fst (checkGraphitiAvailability NotFunction s) = Inr False \<and>
   isConnected (initialize (LookupThrows e) s) = isConnected s \<and>
   events (initialize (LookupThrows e) s) = events s @ [Fallback] \<and>
   isConnected (initialize NotFunction s) = isConnected s \<and>
   events (initialize NotFunction s) = events s @ [Fallback] \<and>
   (enabled cfg \<longrightarrow>
      \<not> isConnected (constructor cfg (LookupThrows e)) \<and>
      events (constructor cfg (LookupThrows e)) = [Fallback] \<and>
      \<not> isConnected (constructor cfg NotFunction) \<and>
      events (constructor cfg NotFunction) = [Fallback])"
  by (simp add: initialize_after_def initialize_def checkGraphitiAvailability_def emit_def
        constructor_def merge_config_def Let_def)

theorem initialize_probe_failure_witness:
  "\<not> isConnected (constructor sample_config (LookupThrows (Error ''getter''))) \<and>
   events (constructor sample_config (LookupThrows (Error ''getter''))) = [Fallback] \<and>
   \<not> isConnected (constructor sample_config NotFunction) \<and>
   events (constructor sample_config NotFunction) = [Fallback]"
proof -
  have en: "enabled sample_config"
    by (simp add: sample_config_def)
  from en initialize_probe_failure [of "Error ''getter''" _ sample_config]
  show ?thesis by simp
qed

text \<open>
  C3 as stated fails: an adapter constructed where the probe's lookup throws has emitted
  \<open>fallback\<close> and nothing else, so no \<open>error\<close> event goes with it.
\<close>

theorem initialize_probe_throws_counterexample:
  "events (constructor sample_config (LookupThrows (Error ''getter''))) = [Fallback] \<and>
   ErrorEvent (Error ''getter'')
     \<notin> set (events (constructor sample_config (LookupThrows (Error ''getter''))))"
  by (simp add: initialize_after_def initialize_def checkGraphitiAvailability_def emit_def
        constructor_def merge_config_def sample_config_def Let_def)

subsection \<open>searchNodes and searchFacts\<close>

text \<open>
  C6. \<^verbatim>\<open>searchNodes\<close> and \<^verbatim>\<open>searchFacts\<close> never throw. When the adapter is connected and
  the remote search throws, \<^verbatim>\<open>searchNodes\<close> returns an empty \<open>nodes\<close> sequence and
  \<^verbatim>\<open>searchFacts\<close> an empty \<open>facts\<close> sequence, both with relevance score 0.
\<close>

theorem search_remote_failure_is_empty_result:
  "(\<exists>r. fst (searchNodes invoke query options s) = Inr r) \<and>
   (\<exists>r. fst (searchFacts invoke query options s) = Inr r) \<and>
   (isConnected s \<and>
    invoke (calls s)
      (search_memory_nodes query (Option.bind options o_groupIds)
         (or_number (Option.bind options o_maxNodes) (maxNodes (config s)))
         (Option.bind options o_entityType) (Option.bind options o_centerNodeUuid)) = Inl e \<longrightarrow>
      fst (searchNodes invoke query options s)
        = Inr \<lparr>nodes = Some [], edges = None, facts = None, relevanceScore = 0\<rparr>) \<and>
   (isConnected s \<and>
    invoke (calls s)
      (search_memory_facts query (Option.bind options o_groupIds)
         (or_number (Option.bind options o_maxFacts) (maxFacts (config s)))
         (Option.bind options o_centerNodeUuid)) = Inl e \<longrightarrow>
      fst (searchFacts invoke query options s)
        = Inr \<lparr>nodes = None, edges = None, facts = Some [], relevanceScore = 0\<rparr>)"
  by (auto simp: searchNodes_def searchFacts_def callGraphitiTool_def split: sum.splits)

theorem search_remote_failure_is_empty_result_witness:
  "fst (searchNodes unreachable ''graph'' None sample_adapter)
     = Inr \<lparr>nodes = Some [], edges = None, facts = None, relevanceScore = 0\<rparr> \<and>
   fst (searchFacts unreachable ''graph'' None sample_adapter)
     = Inr \<lparr>nodes = None, edges = None, facts = Some [], relevanceScore = 0\<rparr>"
proof -
  have conn: "isConnected sample_adapter"
    by (simp add: sample_adapter_def)
  from conn
    search_remote_failure_is_empty_result [of unreachable "''graph''" None sample_adapter
      "Error ''unreachable''"]
  show ?thesis by (simp add: unreachable_def)
qed

text \<open>
  C9. On an adapter that is not connected, \<^verbatim>\<open>searchFacts\<close> returns what
  \<^verbatim>\<open>fallbackSearch\<close> returns and changes nothing; that result has the matching cached
  nodes, cut by \<^verbatim>\<open>slice\<close>, under \<open>nodes\<close> and has no \<open>facts\<close> field.
\<close>

theorem searchFacts_fallback_has_no_facts:
  "\<not> isConnected s \<longrightarrow>
     searchFacts invoke query options s = (Inr (fallbackSearch query options s), s) \<and>
     facts (fallbackSearch query options s) = None \<and>
     nodes (fallbackSearch query options s)
       = Some (slice_to (or_number_default (Option.bind options o_maxNodes) 10)
                 (filter (node_matches query) (Map_values (nodeCache s))))"
  by (simp add: searchFacts_def fallbackSearch_def Let_def)

theorem searchFacts_fallback_has_no_facts_witness:
  "fst (searchFacts unreachable ''graph'' None (sample_adapter\<lparr>isConnected := False\<rparr>))
     = Inr \<lparr>nodes = Some [sample_node ''n1'' ''Graph Store'' [],
                          sample_node ''n2'' ''Cache'' [''backs the GRAPH reads'']],
            edges = None, facts = None, relevanceScore = 0.5\<rparr>"
proof -
  have off: "\<not> isConnected (sample_adapter\<lparr>isConnected := False\<rparr>)"
    by simp
  have found: "filter (node_matches ''graph'') (Map_values (nodeCache sample_adapter))
      = [sample_node ''n1'' ''Graph Store'' [], sample_node ''n2'' ''Cache'' [''backs the GRAPH reads'']]"
    by code_simp
  from off
    searchFacts_fallback_has_no_facts [of "sample_adapter\<lparr>isConnected := False\<rparr>" unreachable
      "''graph''" None]
  show ?thesis
    by (simp add: fallbackSearch_def found slice_to_def or_number_default_def)
qed

subsection \<open>updateFactValidity\<close>

text \<open>
  C7. With temporal tracking off, or with no edge cached under the identifier,
  \<^verbatim>\<open>updateFactValidity\<close> returns the adapter unchanged (no field and no trace differs).
  Otherwise the cached edge gets \<open>invalid = \<not> isValid\<close> and the given \<open>validUntil\<close>,
  the other cache entries and the order of the cache stay, \<open>fact:updated\<close> is emitted,
  and no remote invocation is made.
\<close>

theorem updateFactValidity_effect:
  "((enableTemporalTracking (config s) \<noteq> Some True \<or> Map_get (edgeCache s) edgeUuid = None) \<longrightarrow>
      updateFactValidity edgeUuid isValid validUntil s = s) \<and>
   ((enableTemporalTracking (config s) = Some True \<and> Map_get (edgeCache s) edgeUuid = Some edge) \<longrightarrow>
      Map_get (edgeCache (updateFactValidity edgeUuid isValid validUntil s)) edgeUuid
        = Some (edge\<lparr>e_invalid := Some (\<not> isValid), e_validUntil := validUntil\<rparr>) \<and>
      (k \<noteq> edgeUuid \<longrightarrow>
         Map_get (edgeCache (updateFactValidity edgeUuid isValid validUntil s)) k
           = Map_get (edgeCache s) k) \<and>
      map fst (edgeCache (updateFactValidity edgeUuid isValid validUntil s)) = map fst (edgeCache s) \<and>
      events (updateFactValidity edgeUuid isValid validUntil s)
        = events s @ [FactUpdated edgeUuid isValid validUntil] \<and>
      calls (updateFactValidity edgeUuid isValid validUntil s) = calls s \<and>
      nodeCache (updateFactValidity edgeUuid isValid validUntil s) = nodeCache s \<and>
      episodeQueue (updateFactValidity edgeUuid isValid validUntil s) = episodeQueue s \<and>
      isConnected (updateFactValidity edgeUuid isValid validUntil s) = isConnected s)"
  by (auto simp: updateFactValidity_def emit_def Map_get_Map_set keys_Map_set_present)

theorem updateFactValidity_effect_witness:
  "updateFactValidity ''e7'' False None sample_adapter = sample_adapter \<and>
   updateFactValidity ''e1'' False (Some 9)
       (sample_adapter\<lparr>config := (config sample_adapter)\<lparr>enableTemporalTracking_property := Present (Some False)\<rparr>\<rparr>)
     = sample_adapter\<lparr>config := (config sample_adapter)\<lparr>enableTemporalTracking_property := Present (Some False)\<rparr>\<rparr> \<and>
   Map_get (edgeCache (updateFactValidity ''e1'' False (Some 9) sample_adapter)) ''e1''
     = Some (sample_edge\<lparr>e_invalid := Some True, e_validUntil := Some 9\<rparr>) \<and>
   events (updateFactValidity ''e1'' False (Some 9) sample_adapter) = [FactUpdated ''e1'' False (Some 9)] \<and>
   calls (updateFactValidity ''e1'' False (Some 9) sample_adapter) = []"
proof -
  have absent: "Map_get (edgeCache sample_adapter) ''e7'' = None"
    by (simp add: sample_adapter_def Map_get_def)
  have present: "enableTemporalTracking (config sample_adapter) = Some True \<and>
                 Map_get (edgeCache sample_adapter) ''e1'' = Some sample_edge"
    by (simp add: sample_adapter_def Map_get_def merge_config_def sample_config_def spread_over_def
          enableTemporalTracking_def read_property_def)
  have disabled: "enableTemporalTracking
      (config (sample_adapter\<lparr>config := (config sample_adapter)\<lparr>enableTemporalTracking_property := Present (Some False)\<rparr>\<rparr>))
        \<noteq> Some True"
    by (simp add: enableTemporalTracking_def read_property_def)
  from absent present disabled
    updateFactValidity_effect [of sample_adapter "''e7''" False None]
    updateFactValidity_effect [of
      "sample_adapter\<lparr>config := (config sample_adapter)\<lparr>enableTemporalTracking_property := Present (Some False)\<rparr>\<rparr>"
      "''e1''" False "Some 9"]
    updateFactValidity_effect [of sample_adapter "''e1''" False "Some 9" sample_edge]
  show ?thesis by (simp add: sample_adapter_def)
qed

subsection \<open>syncWithGraphiti\<close>

lemma flushEpisode_state:
  "snd (flushEpisode invoke episode s) = s\<lparr>calls := calls s @ [add_memory_call episode]\<rparr>"
  by (simp add: flushEpisode_def callGraphitiTool_def split: sum.splits)

lemma sync_episodes_state:
  "sync_episodes invoke episodes s = s\<lparr>calls := calls s @ map add_memory_call episodes\<rparr>"
proof (induction episodes arbitrary: s)
  case Nil
  then show ?case by simp
next
  case (Cons episode rest)
  have "sync_episodes invoke (episode # rest) s
      = sync_episodes invoke rest (snd (flushEpisode invoke episode s))"
    by (simp split: prod.splits sum.splits)
  then show ?case
    by (simp add: Cons.IH flushEpisode_state)
qed

text \<open>Storing an empty array under every key of \<open>groups\<close>, one after the other.\<close>

lemma sync_groups_state:
  "sync_groups invoke groups s
     = s\<lparr>calls := calls s @ map add_memory_call (concat (map snd groups)),
          episodeQueue := fold (\<lambda>g m. Map_set g [] m) (map fst groups) (episodeQueue s)\<rparr>"
proof (induction groups arbitrary: s)
  case Nil
  then show ?case by simp
next
  case (Cons group rest)
  obtain groupId episodes where group: "group = (groupId, episodes)"
    by (cases group)
  show ?case
    by (simp add: group Cons.IH sync_episodes_state Let_def)
qed

lemma Map_set_at_unvisited:
  "k \<notin> fst ` set visited \<Longrightarrow> Map_set k v (visited @ (k, w) # rest) = visited @ (k, v) # rest"
  by (induction visited) auto

lemma empty_all_queues:
  "distinct (map fst (visited @ groups)) \<Longrightarrow>
   fold (\<lambda>g m. Map_set g [] m) (map fst groups) (visited @ groups)
     = visited @ map (\<lambda>(g, q). (g, [])) groups"
proof (induction groups arbitrary: visited)
  case Nil
  then show ?case by simp
next
  case (Cons group rest)
  obtain groupId episodes where group: "group = (groupId, episodes)"
    by (cases group)
  from Cons.prems have fresh: "groupId \<notin> fst ` set visited"
    by (auto simp: group)
  from Cons.prems have "distinct (map fst ((visited @ [(groupId, [])]) @ rest))"
    by (simp add: group)
  from Cons.IH [OF this] fresh show ?case
    by (simp add: group Map_set_at_unvisited)
qed

text \<open>
  C4. One run of \<^verbatim>\<open>syncWithGraphiti\<close> (a timer tick), whatever the remote service answers
  or throws: the deliveries it attempts are those of all queued episodes, group after
  group in the order of the map and inside a group in the order of the queue, none left
  out after a failure; afterwards every group is still there with an empty queue; and
  \<open>sync:completed\<close> is emitted, the only event of the run. The order of a queue is the
  order of enqueueing: \<^verbatim>\<open>addMemory\<close> puts the new episode at the end of its group's queue.
\<close>

theorem syncWithGraphiti_attempts_all_in_order_and_empties:
  assumes "distinct (map fst (episodeQueue s))"
  shows
    "calls (syncWithGraphiti invoke now s)
       = calls s @ map add_memory_call (concat (map snd (episodeQueue s))) \<and>
     episodeQueue (syncWithGraphiti invoke now s) = map (\<lambda>(g, q). (g, [])) (episodeQueue s) \<and>
     events (syncWithGraphiti invoke now s) = events s @ [SyncCompleted now] \<and>
     Map_get (episodeQueue (snd (addMemory invoke newId now name content options s)))
         (ep_groupId (new_episode (config s) newId now name content options))
       = Some ((case Map_get (episodeQueue s)
                       (ep_groupId (new_episode (config s) newId now name content options)) of
                  None \<Rightarrow> [] | Some q \<Rightarrow> q)
               @ [new_episode (config s) newId now name content options])"
proof -
  from assms have "distinct (map fst ([] @ episodeQueue s))"
    by simp
  from empty_all_queues [OF this]
  have "fold (\<lambda>g m. Map_set g [] m) (map fst (episodeQueue s)) (episodeQueue s)
      = map (\<lambda>(g, q). (g, [])) (episodeQueue s)"
    by simp
  moreover have "episodeQueue (snd (addMemory invoke newId now name content options s))
      = Map_set (ep_groupId (new_episode (config s) newId now name content options))
          ((case Map_get (episodeQueue s)
                  (ep_groupId (new_episode (config s) newId now name content options)) of
              None \<Rightarrow> [] | Some q \<Rightarrow> q)
           @ [new_episode (config s) newId now name content options]) (episodeQueue s)"
    by (simp add: addMemory_def Let_def emit_def flushEpisode_def callGraphitiTool_def
          split: sum.splits)
  ultimately show ?thesis
    by (simp add: syncWithGraphiti_def sync_groups_state emit_def Map_get_Map_set)
qed

theorem syncWithGraphiti_attempts_all_in_order_and_empties_witness:
  "calls (syncWithGraphiti flaky 5 sample_adapter)
     = [add_memory_call (sample_episode ''u1'' ''a''),
        add_memory_call (sample_episode ''u2'' ''a''),
        add_memory_call (sample_episode ''u3'' ''b'')] \<and>
   flaky [] (add_memory_call (sample_episode ''u1'' ''a'')) = Inl (Error ''busy'') \<and>
   episodeQueue (syncWithGraphiti flaky 5 sample_adapter) = [(''a'', []), (''b'', [])] \<and>
   events (syncWithGraphiti flaky 5 sample_adapter) = [SyncCompleted 5]"
proof -
  have keys: "distinct (map fst (episodeQueue sample_adapter))"
    by (simp add: sample_adapter_def)
  from syncWithGraphiti_attempts_all_in_order_and_empties [OF keys, of flaky 5]
  show ?thesis
    by (simp add: sample_adapter_def flaky_def)
qed

subsection \<open>destroy and getStatistics\<close>

lemma fold_add_length:
  "fold (\<lambda>queue sum. sum + length queue) queues a = a + sum_list (map length queues)"
  by (induction queues arbitrary: a) auto

text \<open>
  C8. After \<^verbatim>\<open>destroy\<close>, from any state and whatever the remote service does during the
  last synchronisation, \<^verbatim>\<open>getStatistics\<close> reports no nodes, no edges, cache size 0, no
  queued episodes and \<open>isConnected = false\<close>. In any state the \<open>queuedEpisodes\<close> it reports
  is the sum of the lengths of all groups' queues.
\<close>

theorem destroy_then_getStatistics:
  "getStatistics (destroy invoke now s)
     = \<lparr>totalNodes = 0, totalEdges = 0, queuedEpisodes = 0, cacheSize = 0, stat_isConnected = False\<rparr> \<and>
   queuedEpisodes (getStatistics t) = sum_list (map (\<lambda>(g, queue). length queue) (episodeQueue t))"
proof -
  have "(\<lambda>(g, queue). length queue) = length \<circ> (snd :: string \<times> GraphitiEpisode list \<Rightarrow> _)"
    by auto
  then show ?thesis
    by (simp add: getStatistics_def destroy_def emit_def Let_def Map_size_def Map_values_def
          fold_add_length)
qed

theorem destroy_then_getStatistics_witness:
  "getStatistics (destroy flaky 5 sample_adapter)
     = \<lparr>totalNodes = 0, totalEdges = 0, queuedEpisodes = 0, cacheSize = 0, stat_isConnected = False\<rparr> \<and>
   queuedEpisodes (getStatistics sample_adapter) = 3"
  using destroy_then_getStatistics [of flaky 5 sample_adapter sample_adapter]
  by (simp add: sample_adapter_def)

subsection \<open>An adapter constructed with \<open>enabled = false\<close>\<close>

text \<open>What no method but \<^verbatim>\<open>initialize\<close> does: connect, probe, start the timer, or emit one of
  the three start-up events.\<close>

lemma syncWithGraphiti_keeps:
  "isConnected (syncWithGraphiti invoke now s) = isConnected s"
  "probes (syncWithGraphiti invoke now s) = probes s"
  "syncTimer (syncWithGraphiti invoke now s) = syncTimer s"
  "events (syncWithGraphiti invoke now s) = events s @ [SyncCompleted now]"
  by (simp_all add: syncWithGraphiti_def sync_groups_state emit_def)

lemma perform_keeps_disconnected:
  "\<not> isConnected s \<Longrightarrow> \<not> isConnected (perform invoke op s)"
  by (cases op)
    (simp_all add: addMemory_def fromMemoryEntry_def searchNodes_def searchFacts_def
      getRecentEpisodes_def clearGraph_def updateFactValidity_def shareWithHiveMind_def
      destroy_def syncWithGraphiti_keeps emit_def Let_def split: option.splits)

lemma perform_keeps_probes:
  "\<not> isConnected s \<Longrightarrow> probes (perform invoke op s) = probes s"
  by (cases op)
    (simp_all add: addMemory_def fromMemoryEntry_def searchNodes_def searchFacts_def
      getRecentEpisodes_def clearGraph_def updateFactValidity_def shareWithHiveMind_def
      destroy_def syncWithGraphiti_keeps emit_def Let_def split: option.splits)

lemma perform_keeps_no_timer:
  "\<not> isConnected s \<Longrightarrow> syncTimer s = None \<Longrightarrow> syncTimer (perform invoke op s) = None"
  by (cases op)
    (simp_all add: addMemory_def fromMemoryEntry_def searchNodes_def searchFacts_def
      getRecentEpisodes_def clearGraph_def updateFactValidity_def shareWithHiveMind_def
      destroy_def syncWithGraphiti_keeps emit_def Let_def split: option.splits)

lemma perform_emits_no_startup_event:
  "\<not> isConnected s \<Longrightarrow> list_all (\<lambda>ev. \<not> startup_event ev) (events s) \<Longrightarrow>
   list_all (\<lambda>ev. \<not> startup_event ev) (events (perform invoke op s))"
  by (cases op)
    (simp_all add: addMemory_def fromMemoryEntry_def searchNodes_def searchFacts_def
      getRecentEpisodes_def clearGraph_def updateFactValidity_def shareWithHiveMind_def
      destroy_def syncWithGraphiti_keeps emit_def Let_def split: option.splits)

lemma perform_all_never_initialized:
  "\<not> isConnected s \<Longrightarrow> syncTimer s = None \<Longrightarrow>
   list_all (\<lambda>ev. \<not> startup_event ev) (events s) \<Longrightarrow>
   \<not> isConnected (perform_all invoke ops s) \<and>
   syncTimer (perform_all invoke ops s) = None \<and>
   probes (perform_all invoke ops s) = probes s \<and>
   list_all (\<lambda>ev. \<not> startup_event ev) (events (perform_all invoke ops s))"
proof (induction ops arbitrary: s)
  case Nil
  then show ?case by simp
next
  case (Cons op ops)
  let ?s' = "perform invoke op s"
  from Cons.prems have "\<not> isConnected ?s'" "syncTimer ?s' = None"
    "list_all (\<lambda>ev. \<not> startup_event ev) (events ?s')" "probes ?s' = probes s"
    by (simp_all add: perform_keeps_disconnected perform_keeps_no_timer
          perform_emits_no_startup_event perform_keeps_probes)
  with Cons.IH [of ?s'] show ?case by simp
qed

text \<open>
  C10. Let an adapter be constructed with \<open>enabled = false\<close> and then used in any way: any
  sequence of method calls and timer ticks, against any remote service. The
  availability probe has not run (the adapter is the same whatever the probe would have
  found, and the count of probes is 0), the constructor emitted nothing, and none of
  \<open>connected\<close>, \<open>fallback\<close>, \<open>error\<close> is among the events emitted at any time. The adapter
  is not connected and has no timer, so \<^verbatim>\<open>searchNodes\<close> and \<^verbatim>\<open>searchFacts\<close> return the
  fallback search and \<^verbatim>\<open>addMemory\<close> makes no remote invocation.
\<close>

theorem disabled_adapter_never_connects:
  assumes "\<not> enabled cfg"
    and "s = perform_all invoke ops (constructor cfg g)"
  shows
    "constructor cfg g = constructor cfg g' \<and>
     probes (constructor cfg g) = 0 \<and>
     events (constructor cfg g) = [] \<and>
     probes s = 0 \<and>
     list_all (\<lambda>ev. \<not> startup_event ev) (events s) \<and>
     \<not> isConnected s \<and>
     syncTimer s = None \<and>
     searchNodes invoke query options s = (Inr (fallbackSearch query options s), s) \<and>
     searchFacts invoke query options s = (Inr (fallbackSearch query options s), s) \<and>
     calls (snd (addMemory invoke newId now name content am_options s)) = calls s"
proof -
  have start: "constructor cfg g
      = \<lparr>config = merge_config cfg, isConnected = False, syncTimer = None,
         episodeQueue = [], nodeCache = [], edgeCache = [], events = [], calls = [], probes = 0\<rparr>"
    for g
    using assms(1) by (simp add: constructor_def merge_config_def)
  have "\<not> isConnected (constructor cfg g)" "syncTimer (constructor cfg g) = None"
    "list_all (\<lambda>ev. \<not> startup_event ev) (events (constructor cfg g))"
    by (simp_all add: start)
  from perform_all_never_initialized [OF this, of invoke ops] assms(2)
  have inv: "\<not> isConnected s" "syncTimer s = None" "probes s = 0"
    "list_all (\<lambda>ev. \<not> startup_event ev) (events s)"
    by (simp_all add: start)
  from inv(1) have "calls (snd (addMemory invoke newId now name content am_options s)) = calls s"
    by (simp add: addMemory_def Let_def emit_def)
  with inv show ?thesis
    by (simp add: start searchNodes_def searchFacts_def)
qed

theorem disabled_adapter_never_connects_witness:
  "probes (constructor (sample_config\<lparr>enabled := False\<rparr>) IsFunction) = 0 \<and>
   events (constructor (sample_config\<lparr>enabled := False\<rparr>) IsFunction) = [] \<and>
   \<not> isConnected
       (perform_all callGraphitiTool_stub
          [AddMemory ''u1'' 1 ''n'' ''c'' None, SearchNodes ''c'' None, TimerTick 2, ClearGraph, Destroy 3]
          (constructor (sample_config\<lparr>enabled := False\<rparr>) IsFunction)) \<and>
   events
       (perform_all callGraphitiTool_stub
          [AddMemory ''u1'' 1 ''n'' ''c'' None, SearchNodes ''c'' None, TimerTick 2, ClearGraph]
          (constructor (sample_config\<lparr>enabled := False\<rparr>) IsFunction))
     = [MemoryAdded (sample_episode ''u1'' ''default''\<lparr>ep_name := ''n'', ep_content := ''c''\<rparr>),
        GraphCleared]"
proof -
  have off: "\<not> enabled (sample_config\<lparr>enabled := False\<rparr>)"
    by simp
  have run: "events
       (perform_all callGraphitiTool_stub
          [AddMemory ''u1'' 1 ''n'' ''c'' None, SearchNodes ''c'' None, TimerTick 2, ClearGraph]
          (constructor (sample_config\<lparr>enabled := False\<rparr>) IsFunction))
     = [MemoryAdded (sample_episode ''u1'' ''default''\<lparr>ep_name := ''n'', ep_content := ''c''\<rparr>),
        GraphCleared]"
    by (simp add: constructor_def merge_config_def sample_config_def addMemory_def new_episode_def
          or_string_def or_string_default_def Map_get_def emit_def Let_def searchNodes_def
          clearGraph_def sample_episode_def)
  from disabled_adapter_never_connects [OF off refl, where invoke = callGraphitiTool_stub
      and ops = "[AddMemory ''u1'' 1 ''n'' ''c'' None, SearchNodes ''c'' None, TimerTick 2, ClearGraph,
                  Destroy 3]"
      and g = IsFunction]
    run
  show ?thesis by simp
qed

subsection \<open>fallbackSearch\<close>

lemma string_includes_iff:
  "string_includes s q \<longleftrightarrow> (\<exists>i\<le>length s. take (length q) (drop i s) = q)"
proof (induction s)
  case Nil
  then show ?case by auto
next
  case (Cons c cs)
  show ?case
  proof
    assume "string_includes (c # cs) q"
    then consider "take (length q) (c # cs) = q" | "string_includes cs q"
      by auto
    then show "\<exists>i\<le>length (c # cs). take (length q) (drop i (c # cs)) = q"
    proof cases
      case 1
      then have "take (length q) (drop 0 (c # cs)) = q" by simp
      then show ?thesis by blast
    next
      case 2
      with Cons.IH obtain i where "i \<le> length cs" "take (length q) (drop i cs) = q"
        by blast
      then have "Suc i \<le> length (c # cs) \<and> take (length q) (drop (Suc i) (c # cs)) = q"
        by simp
      then show ?thesis by blast
    qed
  next
    assume "\<exists>i\<le>length (c # cs). take (length q) (drop i (c # cs)) = q"
    then obtain i where i: "i \<le> length (c # cs)" "take (length q) (drop i (c # cs)) = q"
      by blast
    show "string_includes (c # cs) q"
    proof (cases i)
      case 0
      with i show ?thesis by simp
    next
      case (Suc j)
      with i have "j \<le> length cs \<and> take (length q) (drop j cs) = q" by simp
      with Cons.IH have "string_includes cs q" by blast
      then show ?thesis by simp
    qed
  qed
qed

lemma map_eq_map_iff_list_all2:
  "map f xs = map f ys \<longleftrightarrow> list_all2 (\<lambda>a b. f a = f b) xs ys"
proof (induction xs arbitrary: ys)
  case Nil
  then show ?case by auto
next
  case (Cons x xs)
  then show ?case by (cases ys) auto
qed

lemma of_char_toLowerCase:
  "(of_char (char_toLowerCase c) :: nat)
     = (if capital_letter c then of_char c + 32 else of_char c)"
proof (cases "capital_letter c")
  case True
  then have small: "(of_char c :: nat) + 32 < 256"
    by (auto simp: capital_letter_def Let_def)
  from True have "char_toLowerCase c = char_of ((of_char c :: nat) + 32)"
    by (auto simp: char_toLowerCase_def capital_letter_def Let_def)
  then have "(of_char (char_toLowerCase c) :: nat) = (of_char c + 32) mod 256"
    by (simp only: of_char_of)
  with small True show ?thesis
    by (simp only: mod_less if_True)
next
  case False
  then have "char_toLowerCase c = c"
    by (auto simp: char_toLowerCase_def capital_letter_def Let_def)
  with False show ?thesis by simp
qed

text \<open>Folding two characters gives the same character exactly when they are the same
  letter.\<close>

lemma same_letter_iff: "same_letter a b \<longleftrightarrow> char_toLowerCase a = char_toLowerCase b"
proof -
  have "char_toLowerCase a = char_toLowerCase b
      \<longleftrightarrow> (of_char (char_toLowerCase a) :: nat) = of_char (char_toLowerCase b)"
    by (simp only: of_char_eq_iff)
  also have "\<dots> \<longleftrightarrow> same_letter a b"
  proof -
    have "a = b \<longleftrightarrow> (of_char a :: nat) = of_char b"
      by (simp only: of_char_eq_iff)
    then show ?thesis
      unfolding of_char_toLowerCase same_letter_def small_of_capital_def capital_letter_def Let_def
      by (simp only: split: if_split) arith
  qed
  finally show ?thesis by simp
qed

lemma includes_lower_is_contains_ignoring_case:
  "string_includes (toLowerCase str) (toLowerCase query) = contains_ignoring_case str query"
proof -
  have "string_includes (toLowerCase str) (toLowerCase query)
      \<longleftrightarrow> (\<exists>i\<le>length str. map char_toLowerCase (take (length query) (drop i str))
                               = map char_toLowerCase query)"
    by (simp add: string_includes_iff toLowerCase_def take_map drop_map)
  also have "\<dots> \<longleftrightarrow> (\<exists>i\<le>length str. list_all2 same_letter (take (length query) (drop i str)) query)"
    by (simp add: map_eq_map_iff_list_all2 same_letter_iff [abs_def])
  also have "\<dots> \<longleftrightarrow> contains_ignoring_case str query"
    by (auto simp: contains_ignoring_case_def list_ex_iff less_Suc_eq_le simp del: upt_Suc)
  finally show ?thesis .
qed

lemma node_matches_is_spec_matches: "node_matches query = spec_matches query"
  by (rule ext) (simp add: node_matches_def spec_matches_def includes_lower_is_contains_ignoring_case)






text \<open>
  For a cache that is not empty, which only a caller reaching into the private
  field can bring about, \<open>maxNodes = 0\<close> is read as no limit given (\<^verbatim>\<open>||\<close> takes 0 for
  missing), and a negative \<open>maxNodes\<close> counts from the end of the matches.
\<close>

lemma fallbackSearch_on_filled_cache:
  assumes "matching = filter (spec_matches query) (Map_values (nodeCache s))"
    and "Option.bind options o_maxNodes = Some n"
  shows "n = 0 \<Longrightarrow> nodes (fallbackSearch query options s) = Some (take 10 matching)"
    and "n < 0 \<Longrightarrow>
      nodes (fallbackSearch query options s) = Some (take (length matching - nat (- n)) matching)"
proof -
  have "nat (int (length matching) + n) = length matching - nat (- n)" if "n < 0"
    using that by linarith
  then show "n < 0 \<Longrightarrow>
      nodes (fallbackSearch query options s) = Some (take (length matching - nat (- n)) matching)"
    using assms
    by (simp add: fallbackSearch_def Let_def node_matches_is_spec_matches slice_to_def
          or_number_default_def)
  show "n = 0 \<Longrightarrow> nodes (fallbackSearch query options s) = Some (take 10 matching)"
    using assms
    by (simp add: fallbackSearch_def Let_def node_matches_is_spec_matches slice_to_def
          or_number_default_def)
qed

end
